theory Spec2Isabelle
  imports Main
begin

section \<open>The search widget of static/index.js\<close>

text \<open>
  The script consists of the async function \<open>search\<close>, a top-level lookup of the input
  element and a keypress listener. It runs in a browser page as a classic script. The
  model below makes the parts of the browser explicit that the script touches: the
  elements of the hosting page, the nodes the script creates, the values
  \<open>response.json()\<close> can produce, the global object, the requests passed to \<open>fetch\<close>
  and the async activations of \<open>search\<close> that wait for a promise.
\<close>

subsection \<open>Values\<close>

text \<open>
  The values of the script are the values \<open>JSON.parse\<close> produces, and \<open>undefined\<close>,
  which array destructuring yields for a missing component. The type \<open>'n\<close> stands for
  the numbers; their conversion to text is a parameter \<open>num_str\<close> of the functions below.
  An element of a \<open>string\<close> stands for one code point: iterating a string yields its
  code points.
\<close>

datatype 'n jval =
    JUndefined
  | JNull
  | JBool bool
  | JNum 'n
  | JStr string
  | JArr "'n jval list"
  | JObj "(string \<times> 'n jval) list"

datatype js_error = TypeError | SyntaxError

text \<open>
  \<open>ToString\<close>, which \<open>createTextNode\<close> applies to its argument. An array is joined with
  commas (\<open>Array.prototype.join\<close>: \<open>null\<close> and \<open>undefined\<close> elements give the empty
  string). A parsed object gives \<open>[object Object]\<close> unless it has an own property
  \<open>toString\<close>: no parsed value is callable, so the conversion finds no primitive and
  throws a TypeError.
\<close>

fun ToString :: "('n \<Rightarrow> string) \<Rightarrow> 'n jval \<Rightarrow> js_error + string"
  and join_element :: "('n \<Rightarrow> string) \<Rightarrow> 'n jval \<Rightarrow> js_error + string"
  and join_rest :: "('n \<Rightarrow> string) \<Rightarrow> string \<Rightarrow> 'n jval list \<Rightarrow> js_error + string"
where
  "ToString num_str JUndefined = Inr ''undefined''"
| "ToString num_str JNull = Inr ''null''"
| "ToString num_str (JBool b) = Inr (if b then ''true'' else ''false'')"
| "ToString num_str (JNum n) = Inr (num_str n)"
| "ToString num_str (JStr s) = Inr s"
| "ToString num_str (JArr []) = Inr ''''"
| "ToString num_str (JArr (v # vs)) =
     (case join_element num_str v of
        Inl e \<Rightarrow> Inl e
      | Inr s \<Rightarrow> join_rest num_str s vs)"
| "ToString num_str (JObj kvs) =
     (if ''toString'' \<in> set (map fst kvs) then Inl TypeError
      else Inr ''[object Object]'')"
| "join_element num_str JUndefined = Inr ''''"
| "join_element num_str JNull = Inr ''''"
| "join_element num_str (JBool b) = ToString num_str (JBool b)"
| "join_element num_str (JNum n) = ToString num_str (JNum n)"
| "join_element num_str (JStr s) = ToString num_str (JStr s)"
| "join_element num_str (JArr vs) = ToString num_str (JArr vs)"
| "join_element num_str (JObj kvs) = ToString num_str (JObj kvs)"
| "join_rest num_str acc [] = Inr acc"
| "join_rest num_str acc (v # vs) =
     (case join_element num_str v of
        Inl e \<Rightarrow> Inl e
      | Inr s \<Rightarrow> join_rest num_str (acc @ '','' @ s) vs)"

text \<open>
  The iteration protocol, used by \<open>for ... of\<close> and by the array pattern
  \<open>[path, rank]\<close>: arrays and strings are iterable, every other parsed value is not
  (\<open>None\<close>: a TypeError at the place of use).
\<close>

fun iterate :: "'n jval \<Rightarrow> 'n jval list option" where
  "iterate (JArr vs) = Some vs"
| "iterate (JStr s) = Some (map (\<lambda>c. JStr [c]) s)"
| "iterate v = None"

text \<open>The \<open>k\<close>-th target of an array pattern: \<open>undefined\<close> once the iterator is exhausted.\<close>

definition component :: "'n jval list \<Rightarrow> nat \<Rightarrow> 'n jval" where
  "component vs k = (if k < length vs then vs ! k else JUndefined)"

text \<open>
  The values the pattern \<open>[path, rank]\<close> takes from an entry; \<open>None\<close> when the entry is
  not iterable (a TypeError, thrown before any target is assigned).
\<close>

definition destructure :: "'n jval \<Rightarrow> ('n jval \<times> 'n jval) option" where
  "destructure entry =
     (case iterate entry of
        None \<Rightarrow> None
      | Some vs \<Rightarrow> Some (component vs 0, component vs 1))"

subsection \<open>Nodes\<close>

datatype element = Element (tagName: string) (className: string) (childNodes: "node list")
  and node = TextNode string | ElemNode element

definition createElement :: "string \<Rightarrow> element" where
  "createElement tag = Element tag '''' []"

definition set_className :: "string \<Rightarrow> element \<Rightarrow> element" where
  "set_className c el = Element (tagName el) c (childNodes el)"

definition appendChild :: "element \<Rightarrow> node \<Rightarrow> element" where
  "appendChild parent child = Element (tagName parent) (className parent) (childNodes parent @ [child])"

text \<open>\<open>el.innerHTML = ""\<close> removes every child of the element.\<close>

definition clear_innerHTML :: "element \<Rightarrow> element" where
  "clear_innerHTML el = Element (tagName el) (className el) []"

definition createTextNode :: "('n \<Rightarrow> string) \<Rightarrow> 'n jval \<Rightarrow> js_error + node" where
  "createTextNode num_str v =
     (case ToString num_str v of Inl e \<Rightarrow> Inl e | Inr s \<Rightarrow> Inr (TextNode s))"

subsection \<open>The state of the page\<close>

record request =
  url :: string
  http_method :: string
  headers :: "(string \<times> string) list"
  body :: string

text \<open>
  An activation of \<open>search\<close> is the promise it returned: it waits for \<open>fetch\<close>
  (holding the local \<open>requests\<close>), waits for \<open>response.json()\<close> (holding \<open>requests\<close> and
  \<open>resultList\<close>), or is settled. Nothing handles the promise, so a rejected activation
  is an unhandled rejection.
\<close>

datatype task =
    AwaitFetch string
  | AwaitJson string element
  | Fulfilled
  | Rejected js_error

text \<open>
  An element reference is the id of the element. \<open>ids\<close> are the ids present in the
  hosting page, \<open>elements\<close> and \<open>input_value\<close> give the element and its \<open>value\<close>
  property by reference. \<open>globals\<close> are the properties of the global object,
  \<open>query_var\<close> is the top-level binding \<open>query\<close> (\<open>None\<close> is \<open>null\<close>), \<open>listeners\<close> are the
  elements that carry the keypress listener, \<open>fetched\<close> are the requests handed to
  \<open>fetch\<close>, oldest first, and \<open>tasks\<close> are the activations of \<open>search\<close>, oldest first.
\<close>

record 'n world =
  ids :: "string set"
  elements :: "string \<Rightarrow> element"
  input_value :: "string \<Rightarrow> string"
  globals :: "string \<rightharpoonup> 'n jval"
  query_var :: "string option"
  listeners :: "string set"
  fetched :: "request list"
  tasks :: "task list"

definition getElementById :: "'n world \<Rightarrow> string \<Rightarrow> string option" where
  "getElementById w i = (if i \<in> ids w then Some i else None)"

text \<open>A page with the given ids before the script has run.\<close>

definition page :: "string set \<Rightarrow> 'n world" where
  "page is = \<lparr> ids = is, elements = (\<lambda>i. Element ''div'' '''' []),
     input_value = (\<lambda>i. ''''), globals = Map.empty, query_var = None,
     listeners = {}, fetched = [], tasks = [] \<rparr>"

subsection \<open>The function search\<close>

text \<open>
  The body up to the first \<open>await\<close>. \<open>requests.innerHTML = ""\<close> throws a TypeError when
  the lookup gave \<open>null\<close>; in an async function the throw rejects the returned promise.
\<close>

definition search :: "string \<Rightarrow> 'n world \<Rightarrow> 'n world" where
  "search prompt w =
     (case getElementById w ''results'' of
        None \<Rightarrow> w\<lparr>tasks := tasks w @ [Rejected TypeError]\<rparr>
      | Some requests \<Rightarrow>
          w\<lparr>elements := (elements w)(requests := clear_innerHTML (elements w requests)),
            fetched := fetched w @
              [\<lparr>url = ''/api/search'', http_method = ''POST'',
                headers = [(''Content-Type'', ''text/plain'')], body = prompt\<rparr>],
            tasks := tasks w @ [AwaitFetch requests]\<rparr>)"

text \<open>
  One pass of the loop body for one entry of the response. The assignment pattern
  \<open>[path, rank]\<close> has undeclared targets, so it writes properties of the global
  object; it throws before any assignment when the entry is not iterable.
\<close>

definition loop_body ::
  "('n \<Rightarrow> string) \<Rightarrow> 'n jval \<Rightarrow> (string \<rightharpoonup> 'n jval) \<Rightarrow> element
     \<Rightarrow> (string \<rightharpoonup> 'n jval) \<times> (js_error + element)" where
  "loop_body num_str entry g resultList =
     (case destructure entry of
        None \<Rightarrow> (g, Inl TypeError)
      | Some (path, rank) \<Rightarrow>
          (let g' = g(''path'' \<mapsto> path, ''rank'' \<mapsto> rank);
               item = createElement ''li'';
               pathSpan = createElement ''span''
           in (case createTextNode num_str path of
                 Inl e \<Rightarrow> (g', Inl e)
               | Inr pathText \<Rightarrow>
                   (let pathSpan = appendChild pathSpan pathText;
                        item = appendChild item (ElemNode pathSpan);
                        space = TextNode '' '';
                        item = appendChild item space;
                        rankSpan = set_className ''rank'' (createElement ''span'')
                    in (case createTextNode num_str rank of
                          Inl e \<Rightarrow> (g', Inl e)
                        | Inr rankText \<Rightarrow>
                            (let rankSpan = appendChild rankSpan rankText;
                                 item = appendChild item (ElemNode rankSpan)
                             in (g', Inr (appendChild resultList (ElemNode item)))))))))"

fun for_of ::
  "('n \<Rightarrow> string) \<Rightarrow> 'n jval list \<Rightarrow> (string \<rightharpoonup> 'n jval) \<Rightarrow> element
     \<Rightarrow> (string \<rightharpoonup> 'n jval) \<times> (js_error + element)" where
  "for_of num_str [] g resultList = (g, Inr resultList)"
| "for_of num_str (entry # entries) g resultList =
     (case loop_body num_str entry g resultList of
        (g', Inl e) \<Rightarrow> (g', Inl e)
      | (g', Inr resultList') \<Rightarrow> for_of num_str entries g' resultList')"

text \<open>
  What settles the promise an activation waits for: \<open>fetch\<close> resolves with a response or
  rejects; \<open>response.json()\<close> resolves with the parsed body or rejects.
\<close>

datatype 'n settlement =
    FetchFulfilled
  | FetchRejected js_error
  | JsonFulfilled "'n jval"
  | JsonRejected js_error

text \<open>
  The rest of the body of \<open>search\<close>, from one \<open>await\<close> to the next or to the end. A
  settlement of a promise the activation does not wait for does not occur; it is
  ignored.
\<close>

fun resume ::
  "('n \<Rightarrow> string) \<Rightarrow> task \<Rightarrow> 'n settlement \<Rightarrow> 'n world \<Rightarrow> task \<times> 'n world" where
  "resume num_str (AwaitFetch requests) FetchFulfilled w =
     (AwaitJson requests (set_className ''result-list'' (createElement ''ul'')), w)"
| "resume num_str (AwaitFetch requests) (FetchRejected e) w = (Rejected e, w)"
| "resume num_str (AwaitJson requests resultList) (JsonFulfilled v) w =
     (case iterate v of
        None \<Rightarrow> (Rejected TypeError, w)
      | Some entries \<Rightarrow>
          (case for_of num_str entries (globals w) resultList of
             (g, Inl e) \<Rightarrow> (Rejected e, w\<lparr>globals := g\<rparr>)
           | (g, Inr resultList') \<Rightarrow>
               (Fulfilled,
                w\<lparr>elements := (elements w)
                     (requests := appendChild (elements w requests) (ElemNode resultList')),
                  globals := g\<rparr>)))"
| "resume num_str (AwaitJson requests resultList) (JsonRejected e) w = (Rejected e, w)"
| "resume num_str t s w = (t, w)"

subsection \<open>The top level of the script and the listener\<close>

record key_event =
  key :: string
  defaultPrevented :: bool

text \<open>
  Loading the script: \<open>query\<close> is bound to the result of the lookup, and
  \<open>query.addEventListener\<close> throws a TypeError when that is \<open>null\<close>.
\<close>

definition load :: "'n world \<Rightarrow> 'n world \<times> (js_error + unit)" where
  "load w =
     (let query = getElementById w ''query'';
          w' = w\<lparr>query_var := query\<rparr>
      in case query of
           None \<Rightarrow> (w', Inl TypeError)
         | Some q \<Rightarrow> (w'\<lparr>listeners := insert q (listeners w')\<rparr>, Inr ()))"

text \<open>
  The listener. \<open>Inl\<close> is an exception thrown out of the listener; \<open>Inr\<close> gives the
  event and the state when it returns.
\<close>

definition on_keypress :: "key_event \<Rightarrow> 'n world \<Rightarrow> js_error + key_event \<times> 'n world" where
  "on_keypress e w =
     (if key e = ''Enter''
      then (case query_var w of
              None \<Rightarrow> Inl TypeError
            | Some q \<Rightarrow> Inr (e, search (input_value w q) w))
      else Inr (e, w))"

subsection \<open>The event loop\<close>

datatype 'n event =
    KeyPress string key_event
  | Settle nat "'n settlement"

definition deliver :: "('n \<Rightarrow> string) \<Rightarrow> 'n event \<Rightarrow> 'n world \<Rightarrow> 'n world" where
  "deliver num_str ev w =
     (case ev of
        KeyPress target e \<Rightarrow>
          (if target \<in> listeners w
           then (case on_keypress e w of Inl err \<Rightarrow> w | Inr (e', w') \<Rightarrow> w')
           else w)
      | Settle i s \<Rightarrow>
          (if i < length (tasks w)
           then (case resume num_str (tasks w ! i) s w of
                   (t, w') \<Rightarrow> w'\<lparr>tasks := (tasks w')[i := t]\<rparr>)
           else w))"

fun run :: "('n \<Rightarrow> string) \<Rightarrow> 'n event list \<Rightarrow> 'n world \<Rightarrow> 'n world" where
  "run num_str [] w = w"
| "run num_str (ev # evs) w = run num_str evs (deliver num_str ev w)"

subsection \<open>What the specification expects to see\<close>

text \<open>
  The texts of an entry as the specification reads it: the text of its path and the
  text of its rank, when the entry has both.
\<close>

definition path_rank_text :: "('n \<Rightarrow> string) \<Rightarrow> 'n jval \<Rightarrow> (string \<times> string) option" where
  "path_rank_text num_str entry =
     (case destructure entry of
        None \<Rightarrow> None
      | Some (path, rank) \<Rightarrow>
          (case ToString num_str path of
             Inl e \<Rightarrow> None
           | Inr p \<Rightarrow>
               (case ToString num_str rank of
                  Inl e \<Rightarrow> None
                | Inr r \<Rightarrow> Some (p, r))))"

text \<open>
  The list item of the specification for the texts of one entry: a plain span for the
  path, a single space, and a span of class \<open>rank\<close> for the rank.
\<close>

definition spec_item :: "string \<times> string \<Rightarrow> node" where
  "spec_item t =
     ElemNode (Element ''li'' ''''
       [ElemNode (Element ''span'' '''' [TextNode (fst t)]),
        TextNode '' '',
        ElemNode (Element ''span'' ''rank'' [TextNode (snd t)])])"

text \<open>The unordered list of the specification: one item per entry, in order.\<close>

definition spec_list :: "(string \<times> string) list \<Rightarrow> node" where
  "spec_list ts = ElemNode (Element ''ul'' ''result-list'' (map spec_item ts))"

text \<open>
  The invariant of one activation of \<open>search\<close>, numbered \<open>i\<close>, while only that
  activation runs: the container is empty until the activation is fulfilled, and then
  holds exactly one list.
\<close>

definition cleared_or_rendered :: "nat \<Rightarrow> 'n world \<Rightarrow> bool" where
  "cleared_or_rendered i w =
     (i < length (tasks w) \<and>
      (case tasks w ! i of
         AwaitFetch r \<Rightarrow> r = ''results'' \<and> childNodes (elements w ''results'') = []
       | AwaitJson r ul \<Rightarrow>
           r = ''results'' \<and> tagName ul = ''ul'' \<and> className ul = ''result-list'' \<and>
           childNodes (elements w ''results'') = []
       | Rejected e \<Rightarrow> childNodes (elements w ''results'') = []
       | Fulfilled \<Rightarrow>
           (\<exists>items. childNodes (elements w ''results'') =
              [ElemNode (Element ''ul'' ''result-list'' items)])))"

text \<open>An activation that still waits for a promise.\<close>

fun pending :: "task \<Rightarrow> bool" where
  "pending (AwaitFetch r) = True"
| "pending (AwaitJson r ul) = True"
| "pending t = False"

text \<open>
  The texts of the entries of a parsed body, when the body is iterable and every
  entry has a path and a rank with a text; and what the specification expects the body
  to add to the results container: its list, or nothing when the body has no such
  texts.
\<close>

definition body_texts :: "('n \<Rightarrow> string) \<Rightarrow> 'n jval \<Rightarrow> (string \<times> string) list option" where
  "body_texts num_str v =
     (case iterate v of
        None \<Rightarrow> None
      | Some entries \<Rightarrow> those (map (path_rank_text num_str) entries))"

definition spec_rendering :: "('n \<Rightarrow> string) \<Rightarrow> 'n jval \<Rightarrow> node list" where
  "spec_rendering num_str v =
     (case body_texts num_str v of
        None \<Rightarrow> []
      | Some texts \<Rightarrow> [spec_list texts])"

section \<open>Properties\<close>

subsection \<open>The loop\<close>

lemma ToString_error:
  "ToString num_str v = Inl e \<Longrightarrow> e = TypeError"
  "join_element num_str v = Inl e \<Longrightarrow> e = TypeError"
  "join_rest num_str acc vs = Inl e \<Longrightarrow> e = TypeError"
  by (induction num_str v and num_str v and num_str acc vs
      rule: ToString_join_element_join_rest.induct)
     (auto split: sum.splits if_splits)

lemma loop_body_error:
  "loop_body num_str entry g resultList = (g', Inl e) \<Longrightarrow> e = TypeError"
  by (auto simp: loop_body_def createTextNode_def Let_def
      split: option.splits sum.splits dest: ToString_error)

lemma for_of_error:
  "for_of num_str entries g resultList = (g', Inl e) \<Longrightarrow> e = TypeError"
  by (induction entries arbitrary: g resultList)
     (auto split: prod.splits sum.splits dest: loop_body_error)

lemma path_rank_text_not_iterable:
  "iterate entry = None \<Longrightarrow> path_rank_text num_str entry = None"
  by (simp add: path_rank_text_def destructure_def)

lemma path_rank_text_pair:
  "path_rank_text num_str (JArr [JStr p, JNum n]) = Some (p, num_str n)"
  "path_rank_text num_str (JArr [JStr p, JStr r]) = Some (p, r)"
  by (simp_all add: path_rank_text_def destructure_def component_def)

lemma path_rank_text_destructure:
  "path_rank_text num_str entry = Some t \<Longrightarrow> \<exists>pr. destructure entry = Some pr"
  by (cases "destructure entry") (simp_all add: path_rank_text_def)

lemma loop_body_texts:
  assumes "path_rank_text num_str entry = Some t" and "destructure entry = Some pr"
  shows "loop_body num_str entry g resultList =
           (g(''path'' \<mapsto> fst pr, ''rank'' \<mapsto> snd pr),
            Inr (appendChild resultList (spec_item t)))"
  using assms
  by (cases pr)
     (auto simp: loop_body_def path_rank_text_def createTextNode_def createElement_def
        appendChild_def set_className_def spec_item_def Let_def split: sum.splits)

lemma loop_body_malformed:
  "path_rank_text num_str entry = None \<Longrightarrow>
   \<exists>g'. loop_body num_str entry g resultList = (g', Inl TypeError)"
  by (auto simp: loop_body_def path_rank_text_def createTextNode_def Let_def
      split: option.splits sum.splits dest: ToString_error)

lemma for_of_texts:
  "map (path_rank_text num_str) entries = map Some texts \<Longrightarrow>
   snd (for_of num_str entries g resultList) =
     Inr (Element (tagName resultList) (className resultList)
            (childNodes resultList @ map spec_item texts))"
proof (induction entries arbitrary: texts g resultList)
  case Nil
  then show ?case by simp
next
  case (Cons entry entries)
  from Cons.prems obtain t ts where ts: "texts = t # ts"
    "path_rank_text num_str entry = Some t"
    "map (path_rank_text num_str) entries = map Some ts"
    by (cases texts) auto
  from path_rank_text_destructure [OF ts(2)] obtain pr
    where pr: "destructure entry = Some pr" by blast
  show ?case
    by (simp add: loop_body_texts [OF ts(2) pr] Cons.IH [OF ts(3)] ts(1) appendChild_def)
qed

lemma for_of_globals:
  "map (path_rank_text num_str) entries = map Some texts \<Longrightarrow> entries \<noteq> [] \<Longrightarrow>
   destructure (last entries) = Some (p, r) \<Longrightarrow>
   fst (for_of num_str entries g resultList) = g(''path'' \<mapsto> p, ''rank'' \<mapsto> r)"
proof (induction entries arbitrary: texts g resultList)
  case Nil
  then show ?case by simp
next
  case (Cons entry entries)
  from Cons.prems(1) obtain t ts where ts: "texts = t # ts"
    "path_rank_text num_str entry = Some t"
    "map (path_rank_text num_str) entries = map Some ts"
    by (cases texts) auto
  from path_rank_text_destructure [OF ts(2)] obtain pr
    where pr: "destructure entry = Some pr" by blast
  show ?case
  proof (cases "entries = []")
    case True
    with Cons.prems(3) pr show ?thesis
      by (auto simp add: loop_body_texts [OF ts(2) pr] fun_eq_iff)
  next
    case False
    with Cons.prems(3) have "destructure (last entries) = Some (p, r)" by simp
    from Cons.IH [OF ts(3) False this] show ?thesis
      by (auto simp add: loop_body_texts [OF ts(2) pr] fun_eq_iff)
  qed
qed

lemma for_of_malformed:
  "\<exists>entry \<in> set entries. path_rank_text num_str entry = None \<Longrightarrow>
   \<exists>g'. for_of num_str entries g resultList = (g', Inl TypeError)"
proof (induction entries arbitrary: g resultList)
  case Nil
  then show ?case by simp
next
  case (Cons entry entries)
  show ?case
  proof (cases "path_rank_text num_str entry")
    case None
    from loop_body_malformed [OF None] obtain g1
      where "loop_body num_str entry g resultList = (g1, Inl TypeError)" by blast
    then show ?thesis by simp
  next
    case (Some t)
    from path_rank_text_destructure [OF Some] obtain pr
      where pr: "destructure entry = Some pr" by blast
    from Some Cons.prems have "\<exists>entry \<in> set entries. path_rank_text num_str entry = None"
      by auto
    from Cons.IH [OF this] show ?thesis
      by (simp add: loop_body_texts [OF Some pr])
  qed
qed

lemma for_of_keeps_tag:
  "for_of num_str entries g resultList = (g', Inr resultList') \<Longrightarrow>
   tagName resultList' = tagName resultList \<and> className resultList' = className resultList"
proof (induction entries arbitrary: g resultList)
  case Nil
  then show ?case by simp
next
  case (Cons entry entries)
  obtain g1 r1 where lb: "loop_body num_str entry g resultList = (g1, r1)"
    by (cases "loop_body num_str entry g resultList")
  show ?case
  proof (cases r1)
    case (Inl e)
    with lb Cons.prems show ?thesis by simp
  next
    case (Inr rl)
    with lb have "tagName rl = tagName resultList \<and> className rl = className resultList"
      by (auto simp: loop_body_def Let_def appendChild_def split: option.splits sum.splits)
    moreover from lb Inr Cons.prems have "for_of num_str entries g1 rl = (g', Inr resultList')"
      by simp
    ultimately show ?thesis using Cons.IH by metis
  qed
qed

subsection \<open>Single steps\<close>

lemma search_present:
  "''results'' \<in> ids w \<Longrightarrow>
   search prompt w =
     w\<lparr>elements := (elements w)(''results'' := clear_innerHTML (elements w ''results'')),
       fetched := fetched w @
         [\<lparr>url = ''/api/search'', http_method = ''POST'',
           headers = [(''Content-Type'', ''text/plain'')], body = prompt\<rparr>],
       tasks := tasks w @ [AwaitFetch ''results'']\<rparr>"
  by (simp add: search_def getElementById_def)

lemma search_absent:
  "''results'' \<notin> ids w \<Longrightarrow> search prompt w = w\<lparr>tasks := tasks w @ [Rejected TypeError]\<rparr>"
  by (simp add: search_def getElementById_def)

lemma search_frame:
  "ids (search prompt w) = ids w \<and> input_value (search prompt w) = input_value w \<and>
   query_var (search prompt w) = query_var w \<and> listeners (search prompt w) = listeners w \<and>
   globals (search prompt w) = globals w"
  by (simp add: search_def split: option.splits)

lemma resume_frame:
  "resume num_str t s w = (t', w') \<Longrightarrow>
   ids w' = ids w \<and> input_value w' = input_value w \<and> query_var w' = query_var w \<and>
   listeners w' = listeners w \<and> fetched w' = fetched w \<and> tasks w' = tasks w"
  by (cases "(num_str, t, s, w)" rule: resume.cases)
     (auto split: option.splits prod.splits sum.splits)

lemma resume_globals:
  "resume num_str t s w = (t', w') \<Longrightarrow> \<forall>v. s \<noteq> JsonFulfilled v \<Longrightarrow> globals w' = globals w"
  by (cases "(num_str, t, s, w)" rule: resume.cases) auto

lemma resume_settled:
  "t = Fulfilled \<or> t = Rejected e \<Longrightarrow> resume num_str t s w = (t, w)"
  by (cases s) auto

lemma deliver_Settle:
  "i < length (tasks w) \<Longrightarrow>
   deliver num_str (Settle i s) w =
     (case resume num_str (tasks w ! i) s w of (t, w') \<Rightarrow> w'\<lparr>tasks := (tasks w')[i := t]\<rparr>)"
  by (simp add: deliver_def)

lemma deliver_fetch_fulfilled:
  "i < length (tasks w) \<Longrightarrow> tasks w ! i = AwaitFetch r \<Longrightarrow>
   deliver num_str (Settle i FetchFulfilled) w =
     w\<lparr>tasks := (tasks w)[i := AwaitJson r (Element ''ul'' ''result-list'' [])]\<rparr>"
  by (simp add: deliver_Settle set_className_def createElement_def)




lemma deliver_json_texts:
  assumes "i < length (tasks w)" and "tasks w ! i = AwaitJson r ul"
    and "map (path_rank_text num_str) entries = map Some texts"
  shows "deliver num_str (Settle i (JsonFulfilled (JArr entries))) w =
     w\<lparr>elements := (elements w)
          (r := Element (tagName (elements w r)) (className (elements w r))
                  (childNodes (elements w r) @
                   [ElemNode (Element (tagName ul) (className ul)
                      (childNodes ul @ map spec_item texts))])),
       globals := fst (for_of num_str entries (globals w) ul),
       tasks := (tasks w)[i := Fulfilled]\<rparr>"
proof -
  obtain g r1 where f: "for_of num_str entries (globals w) ul = (g, r1)"
    by (cases "for_of num_str entries (globals w) ul")
  with for_of_texts [OF assms(3), of "globals w" ul]
  have "r1 = Inr (Element (tagName ul) (className ul) (childNodes ul @ map spec_item texts))"
    by simp
  with assms(1,2) f show ?thesis
    by (simp add: deliver_Settle appendChild_def)
qed

lemma deliver_json_throws:
  assumes "i < length (tasks w)" and "tasks w ! i = AwaitJson r ul"
    and "\<exists>entry \<in> set entries. path_rank_text num_str entry = None"
  shows "\<exists>g. deliver num_str (Settle i (JsonFulfilled (JArr entries))) w =
           w\<lparr>globals := g, tasks := (tasks w)[i := Rejected TypeError]\<rparr>"
proof -
  from for_of_malformed [OF assms(3)] obtain g
    where "for_of num_str entries (globals w) ul = (g, Inl TypeError)" by blast
  with assms(1,2) have "deliver num_str (Settle i (JsonFulfilled (JArr entries))) w =
     w\<lparr>globals := g, tasks := (tasks w)[i := Rejected TypeError]\<rparr>"
    by (simp add: deliver_Settle)
  then show ?thesis by blast
qed

lemma deliver_frame:
  "ids (deliver num_str ev w) = ids w \<and> input_value (deliver num_str ev w) = input_value w \<and>
   query_var (deliver num_str ev w) = query_var w \<and>
   listeners (deliver num_str ev w) = listeners w"
proof (cases ev)
  case (KeyPress target e)
  then show ?thesis
    by (simp add: deliver_def on_keypress_def search_frame split: option.splits)
next
  case (Settle i s)
  obtain t w' where r: "resume num_str (tasks w ! i) s w = (t, w')"
    by (cases "resume num_str (tasks w ! i) s w")
  from resume_frame [OF r] r Settle show ?thesis
    by (simp add: deliver_def)
qed


lemma deliver_Settle_fetched:
  "fetched (deliver num_str (Settle i s) w) = fetched w"
proof -
  obtain t w' where r: "resume num_str (tasks w ! i) s w = (t, w')"
    by (cases "resume num_str (tasks w ! i) s w")
  from resume_frame [OF r] r show ?thesis
    by (simp add: deliver_def)
qed

lemma run_settlements_fetched:
  "fetched (run num_str (map (\<lambda>(i, s). Settle i s) ss) w) = fetched w"
  by (induction ss arbitrary: w) (simp_all add: deliver_Settle_fetched split: prod.splits)

lemma deliver_globals:
  assumes "\<forall>i v. ev \<noteq> Settle i (JsonFulfilled v)"
  shows "globals (deliver num_str ev w) = globals w"
proof (cases ev)
  case (KeyPress target e)
  then show ?thesis
    by (simp add: deliver_def on_keypress_def search_frame split: option.splits)
next
  case (Settle i s)
  obtain t w' where r: "resume num_str (tasks w ! i) s w = (t, w')"
    by (cases "resume num_str (tasks w ! i) s w")
  from assms Settle have "\<forall>v. s \<noteq> JsonFulfilled v" by simp
  from resume_globals [OF r this] r Settle show ?thesis
    by (simp add: deliver_def)
qed

lemma empty_response_globals:
  assumes "''results'' \<in> ids w"
  shows "globals (run num_str
                    [Settle (length (tasks w)) FetchFulfilled,
                     Settle (length (tasks w)) (JsonFulfilled (JArr []))]
                    (search prompt w)) = globals w"
  using assms
  by (simp add: search_present deliver_Settle set_className_def createElement_def)


subsection \<open>The container during one activation\<close>

lemma cleared_or_rendered_search:
  "''results'' \<in> ids w \<Longrightarrow> cleared_or_rendered (length (tasks w)) (search prompt w)"
  by (simp add: cleared_or_rendered_def search_present clear_innerHTML_def)

lemma cleared_or_rendered_deliver:
  assumes "cleared_or_rendered i w"
  shows "cleared_or_rendered i (deliver num_str (Settle i s) w)"
proof -
  from assms have i: "i < length (tasks w)" by (simp add: cleared_or_rendered_def)
  show ?thesis
  proof (cases "tasks w ! i")
    case (AwaitFetch r)
    with assms i show ?thesis
      by (cases s)
         (simp_all add: cleared_or_rendered_def deliver_Settle set_className_def createElement_def)
  next
    case (AwaitJson r ul)
    show ?thesis
    proof (cases s)
      case (JsonFulfilled v)
      show ?thesis
      proof (cases "iterate v")
        case None
        with assms i AwaitJson JsonFulfilled show ?thesis
          by (simp add: cleared_or_rendered_def deliver_Settle)
      next
        case (Some entries)
        obtain g r1 where f: "for_of num_str entries (globals w) ul = (g, r1)"
          by (cases "for_of num_str entries (globals w) ul")
        show ?thesis
        proof (cases r1)
          case (Inl e)
          with assms i AwaitJson JsonFulfilled Some f show ?thesis
            by (simp add: cleared_or_rendered_def deliver_Settle)
        next
          case (Inr ul')
          with f for_of_keeps_tag [of num_str entries "globals w" ul g ul']
          have "\<exists>items. ul' = Element ''ul'' ''result-list'' items"
            using assms i AwaitJson by (cases ul') (simp add: cleared_or_rendered_def)
          with assms i AwaitJson JsonFulfilled Some f Inr show ?thesis
            by (simp add: cleared_or_rendered_def deliver_Settle appendChild_def)
        qed
      qed
    qed (use assms i AwaitJson in \<open>simp_all add: cleared_or_rendered_def deliver_Settle\<close>)
  next
    case Fulfilled
    with assms i show ?thesis
      by (simp add: cleared_or_rendered_def deliver_Settle resume_settled)
  next
    case (Rejected e)
    with assms i show ?thesis
      by (simp add: cleared_or_rendered_def deliver_Settle resume_settled)
  qed
qed

lemma deliver_Settle_tasks:
  "tasks (deliver num_str (Settle k s) w) =
     (if k < length (tasks w) then (tasks w)[k := fst (resume num_str (tasks w ! k) s w)]
      else tasks w)"
proof -
  obtain t w' where r: "resume num_str (tasks w ! k) s w = (t, w')"
    by (cases "resume num_str (tasks w ! k) s w")
  from resume_frame [OF r] r show ?thesis
    by (simp add: deliver_def)
qed

lemma deliver_not_pending:
  "k < length (tasks w) \<Longrightarrow> \<not> pending (tasks w ! k) \<Longrightarrow> deliver num_str (Settle k s) w = w"
  by (cases "tasks w ! k")
     (simp_all add: deliver_Settle resume_settled list_update_same_conv)

lemma deliver_out_of_range:
  "length (tasks w) \<le> k \<Longrightarrow> deliver num_str (Settle k s) w = w"
  by (simp add: deliver_def)

lemma cleared_or_rendered_step:
  assumes c: "cleared_or_rendered i w'" and l: "length (tasks w') = Suc i"
    and o: "\<forall>j<i. \<not> pending (tasks w' ! j) \<or> j \<noteq> k"
  shows "cleared_or_rendered i (deliver num_str (Settle k s) w') \<and>
         length (tasks (deliver num_str (Settle k s) w')) = Suc i \<and>
         (\<forall>j<i. tasks (deliver num_str (Settle k s) w') ! j = tasks w' ! j)"
proof (cases "k = i")
  case True
  with c l show ?thesis
    by (simp add: cleared_or_rendered_deliver deliver_Settle_tasks)
next
  case False
  show ?thesis
  proof (cases "k < i")
    case True
    with o have "\<not> pending (tasks w' ! k)" by blast
    with True l have "deliver num_str (Settle k s) w' = w'"
      by (simp add: deliver_not_pending)
    with c l show ?thesis by simp
  next
    case False
    with \<open>k \<noteq> i\<close> l have "deliver num_str (Settle k s) w' = w'"
      by (simp add: deliver_out_of_range)
    with c l show ?thesis by simp
  qed
qed

lemma cleared_or_rendered_settlements:
  assumes "cleared_or_rendered i w'" and "length (tasks w') = Suc i"
    and "\<forall>(j, s) \<in> set ss. j < i \<longrightarrow> \<not> pending (tasks w' ! j)"
  shows "cleared_or_rendered i (run num_str (map (\<lambda>(j, s). Settle j s) ss) w')"
  using assms
proof (induction ss arbitrary: w')
  case Nil
  then show ?case by simp
next
  case (Cons js ss)
  obtain k s where js: "js = (k, s)" by (cases js)
  from Cons.prems(3) js have o: "\<forall>j<i. \<not> pending (tasks w' ! j) \<or> j \<noteq> k"
    by auto
  from cleared_or_rendered_step [OF Cons.prems(1,2) o, of num_str s]
  have st: "cleared_or_rendered i (deliver num_str (Settle k s) w')"
    "length (tasks (deliver num_str (Settle k s) w')) = Suc i"
    "\<forall>j<i. tasks (deliver num_str (Settle k s) w') ! j = tasks w' ! j"
    by blast+
  from Cons.prems(3) st(3)
  have "\<forall>(j, s') \<in> set ss. j < i \<longrightarrow> \<not> pending (tasks (deliver num_str (Settle k s) w') ! j)"
    by auto
  from Cons.IH [OF st(1,2) this] js show ?case by simp
qed

subsection \<open>Two activations at once\<close>

lemma those_Some: "those xs = Some ys \<Longrightarrow> xs = map Some ys"
  by (induction xs arbitrary: ys) (auto split: option.splits)

lemma those_None: "those (map f xs) = None \<Longrightarrow> \<exists>x \<in> set xs. f x = None"
  by (induction xs) (auto split: option.splits)

lemma search_tasks:
  "''results'' \<in> ids w \<Longrightarrow> tasks (search prompt w) = tasks w @ [AwaitFetch ''results'']"
  by (simp add: search_present)

lemma search_children:
  "''results'' \<in> ids w \<Longrightarrow> childNodes (elements (search prompt w) ''results'') = []"
  by (simp add: search_present clear_innerHTML_def)

lemma fetch_tasks:
  "i < length (tasks w) \<Longrightarrow> tasks w ! i = AwaitFetch r \<Longrightarrow>
   tasks (deliver num_str (Settle i FetchFulfilled) w) =
     (tasks w)[i := AwaitJson r (Element ''ul'' ''result-list'' [])]"
  by (simp add: deliver_fetch_fulfilled)

lemma fetch_elements:
  "i < length (tasks w) \<Longrightarrow> tasks w ! i = AwaitFetch r \<Longrightarrow>
   elements (deliver num_str (Settle i FetchFulfilled) w) = elements w"
  by (simp add: deliver_fetch_fulfilled)

lemma json_body:
  assumes "i < length (tasks w)"
    and "tasks w ! i = AwaitJson r (Element ''ul'' ''result-list'' [])"
  shows "tasks (deliver num_str (Settle i (JsonFulfilled v)) w) =
           (tasks w)[i := (if body_texts num_str v = None then Rejected TypeError
                           else Fulfilled)] \<and>
         childNodes (elements (deliver num_str (Settle i (JsonFulfilled v)) w) r) =
           childNodes (elements w r) @ spec_rendering num_str v"
proof (cases "iterate v")
  case None
  with assms show ?thesis
    by (simp add: deliver_Settle body_texts_def spec_rendering_def)
next
  case (Some entries)
  then have "resume num_str (AwaitJson r (Element ''ul'' ''result-list'' []))
               (JsonFulfilled v) w =
             resume num_str (AwaitJson r (Element ''ul'' ''result-list'' []))
               (JsonFulfilled (JArr entries)) w"
    by simp
  with assms have eq: "deliver num_str (Settle i (JsonFulfilled v)) w =
                       deliver num_str (Settle i (JsonFulfilled (JArr entries))) w"
    by (simp add: deliver_Settle)
  show ?thesis
  proof (cases "those (map (path_rank_text num_str) entries)")
    case None
    from those_None [OF None]
    have "\<exists>entry \<in> set entries. path_rank_text num_str entry = None" .
    from deliver_json_throws [OF assms this] obtain g where
      "deliver num_str (Settle i (JsonFulfilled (JArr entries))) w =
         w\<lparr>globals := g, tasks := (tasks w)[i := Rejected TypeError]\<rparr>"
      by blast
    with eq None \<open>iterate v = Some entries\<close> show ?thesis
      by (simp add: body_texts_def spec_rendering_def)
  next
    case (Some texts)
    note t = those_Some [OF Some]
    from deliver_json_texts [OF assms t] eq Some \<open>iterate v = Some entries\<close> show ?thesis
      by (simp add: body_texts_def spec_rendering_def spec_list_def)
  qed
qed

lemma json_tasks:
  "i < length (tasks w) \<Longrightarrow> tasks w ! i = AwaitJson r (Element ''ul'' ''result-list'' []) \<Longrightarrow>
   tasks (deliver num_str (Settle i (JsonFulfilled v)) w) =
     (tasks w)[i := (if body_texts num_str v = None then Rejected TypeError else Fulfilled)]"
  using json_body by blast

lemma json_children:
  "i < length (tasks w) \<Longrightarrow> tasks w ! i = AwaitJson r (Element ''ul'' ''result-list'' []) \<Longrightarrow>
   childNodes (elements (deliver num_str (Settle i (JsonFulfilled v)) w) r) =
     childNodes (elements w r) @ spec_rendering num_str v"
  using json_body by blast

lemma overlap_cases:
  assumes "pre @ rest = [a, b]" and "rest \<noteq> []"
  shows "(pre = [] \<and> rest = [a, b]) \<or> (pre = [a] \<and> rest = [b])"
  using assms by (cases pre; cases "tl pre") auto

section \<open>The properties of the specification\<close>

text \<open>
  In the theorems below an activation of \<open>search\<close> started in a state \<open>w\<close> has the
  number \<open>length (tasks w)\<close>. \<open>''results'' \<in> ids w\<close> says that the hosting page
  has the results container.
\<close>

text \<open>
  C1. For a response array whose entries have a path and a rank with the texts
  \<open>texts\<close>, in this order, \<open>search\<close> completes and the results container holds one
  child: the unordered list of class \<open>result-list\<close> with one list item per entry, in
  response order, each made of a span with the text of the path, a text node with one
  space and a span of class \<open>rank\<close> with the text of the rank. No entry is skipped,
  reordered or merged with another.
\<close>

theorem search_renders_entries:
  assumes "''results'' \<in> ids w"
    and "map (path_rank_text num_str) entries = map Some texts"
  shows "let w' = run num_str
                    [Settle (length (tasks w)) FetchFulfilled,
                     Settle (length (tasks w)) (JsonFulfilled (JArr entries))]
                    (search prompt w)
         in tasks w' ! length (tasks w) = Fulfilled \<and>
            childNodes (elements w' ''results'') = [spec_list texts] \<and>
            length texts = length entries"
proof -
  from assms(2) have "length texts = length entries"
    by (metis length_map)
  with assms show ?thesis
    by (simp add: search_present deliver_fetch_fulfilled deliver_json_texts
        clear_innerHTML_def spec_list_def)
qed

theorem search_renders_entries_witness:
  "''results'' \<in> ids (page {''results'', ''query''} :: string world) \<and>
   childNodes (elements
     (run (\<lambda>n. n)
        [Settle 0 FetchFulfilled,
         Settle 0 (JsonFulfilled
           (JArr [JArr [JStr ''a.txt'', JNum ''3''], JArr [JStr ''b.txt'', JNum ''1'']]))]
        (search ''q'' (page {''results'', ''query''}))) ''results'') =
     [ElemNode (Element ''ul'' ''result-list''
        [ElemNode (Element ''li'' ''''
           [ElemNode (Element ''span'' '''' [TextNode ''a.txt'']), TextNode '' '',
            ElemNode (Element ''span'' ''rank'' [TextNode ''3''])]),
         ElemNode (Element ''li'' ''''
           [ElemNode (Element ''span'' '''' [TextNode ''b.txt'']), TextNode '' '',
            ElemNode (Element ''span'' ''rank'' [TextNode ''1''])])])]"
proof -
  have h1: "''results'' \<in> ids (page {''results'', ''query''} :: string world)"
    by (simp add: page_def)
  have h2: "map (path_rank_text (\<lambda>n. n))
              [JArr [JStr ''a.txt'', JNum ''3''], JArr [JStr ''b.txt'', JNum ''1'']] =
            map Some [(''a.txt'', ''3''), (''b.txt'', ''1'')]"
    by (simp add: path_rank_text_pair)
  from search_renders_entries [OF h1 h2, of "''q''"] h1 show ?thesis
    by (simp add: Let_def page_def spec_list_def spec_item_def)
qed

text \<open>
  C2. For every query string \<open>prompt\<close>, the empty string too, \<open>search prompt\<close> hands
  exactly one request to \<open>fetch\<close>: method POST, path \<open>/api/search\<close>, the header
  \<open>Content-Type: text/plain\<close> and the string itself as body; however its promises are
  settled afterwards, no further request is issued.
\<close>

theorem search_issues_one_request:
  assumes "''results'' \<in> ids w"
  shows "fetched (search prompt w) = fetched w @
           [\<lparr>url = ''/api/search'', http_method = ''POST'',
             headers = [(''Content-Type'', ''text/plain'')], body = prompt\<rparr>] \<and>
         fetched (run num_str (map (\<lambda>(i, s). Settle i s) ss) (search prompt w)) =
           fetched (search prompt w)"
  using assms by (simp add: search_present run_settlements_fetched)

theorem search_issues_one_request_witness:
  "''results'' \<in> ids (page {''results'', ''query''} :: string world) \<and>
   fetched (search '''' (page {''results'', ''query''} :: string world)) =
     [\<lparr>url = ''/api/search'', http_method = ''POST'',
       headers = [(''Content-Type'', ''text/plain'')], body = ''''\<rparr>] \<and>
   fetched (run (\<lambda>n. n)
      [Settle 0 FetchFulfilled, Settle 0 (JsonFulfilled (JArr []))]
      (search '' a b '' (page {''results'', ''query''}))) =
     [\<lparr>url = ''/api/search'', http_method = ''POST'',
       headers = [(''Content-Type'', ''text/plain'')], body = '' a b ''\<rparr>]"
proof -
  have h: "''results'' \<in> ids (page {''results'', ''query''} :: string world)"
    by (simp add: page_def)
  from search_issues_one_request [OF h, of "''''" "\<lambda>n. n" "[]"]
    search_issues_one_request [OF h, of "'' a b ''" "\<lambda>n. n"
      "[(0, FetchFulfilled), (0, JsonFulfilled (JArr []))]"] h
  show ?thesis
    by (simp add: page_def)
qed

text \<open>
  C3, as amended. Every invocation of \<open>search\<close> empties the results container before
  it returns, so before any response: right after the invocation the container has no
  child. As long as no promise of an earlier search that is still pending is settled
  (and no further search is started), it stays empty until the new list is appended:
  however the promises of this activation are settled, and whatever is addressed to
  activations that are already settled or do not exist, the container is empty, or
  this activation is fulfilled and the container holds exactly its one list.
\<close>

theorem search_clears_container:
  assumes "''results'' \<in> ids w"
  shows "childNodes (elements (search prompt w) ''results'') = [] \<and>
         ((\<forall>(j, s) \<in> set ss. j < length (tasks w) \<longrightarrow> \<not> pending (tasks w ! j)) \<longrightarrow>
          (let w' = run num_str (map (\<lambda>(j, s). Settle j s) ss) (search prompt w)
           in childNodes (elements w' ''results'') = [] \<or>
              (tasks w' ! length (tasks w) = Fulfilled \<and>
               (\<exists>items. childNodes (elements w' ''results'') =
                  [ElemNode (Element ''ul'' ''result-list'' items)]))))"
proof -
  let ?i = "length (tasks w)"
  let ?w' = "run num_str (map (\<lambda>(j, s). Settle j s) ss) (search prompt w)"
  have a: "childNodes (elements (search prompt w) ''results'') = []"
    using assms by (simp add: search_present clear_innerHTML_def)
  have b: "childNodes (elements ?w' ''results'') = [] \<or>
      (tasks ?w' ! ?i = Fulfilled \<and>
       (\<exists>items. childNodes (elements ?w' ''results'') =
          [ElemNode (Element ''ul'' ''result-list'' items)]))"
    if o: "\<forall>(j, s) \<in> set ss. j < ?i \<longrightarrow> \<not> pending (tasks w ! j)"
  proof -
    have l: "length (tasks (search prompt w)) = Suc ?i"
      using assms by (simp add: search_present)
    from o have "\<forall>(j, s) \<in> set ss. j < ?i \<longrightarrow> \<not> pending (tasks (search prompt w) ! j)"
      using assms by (auto simp: search_present nth_append)
    from cleared_or_rendered_settlements [OF cleared_or_rendered_search [OF assms] l this]
    have "cleared_or_rendered ?i ?w'" .
    then show ?thesis
      by (auto simp: cleared_or_rendered_def split: task.splits)
  qed
  from a b show ?thesis by (simp add: Let_def)
qed

text \<open>
  An instance: an earlier search has completed and left its list; the next search
  empties the container, and it stays empty while the fetch of the new search is
  fulfilled and settlements arrive for the finished activation and for none.
\<close>

theorem search_clears_container_witness:
  "''results'' \<in> ids (run (\<lambda>n. n)
      [Settle 0 FetchFulfilled, Settle 0 (JsonFulfilled (JArr []))]
      (search ''a'' (page {''results'', ''query''} :: string world))) \<and>
   tasks (run (\<lambda>n. n)
      [Settle 0 FetchFulfilled, Settle 0 (JsonFulfilled (JArr []))]
      (search ''a'' (page {''results'', ''query''} :: string world))) = [Fulfilled] \<and>
   childNodes (elements (run (\<lambda>n. n)
      [Settle 0 FetchFulfilled, Settle 0 (JsonFulfilled (JArr []))]
      (search ''a'' (page {''results'', ''query''} :: string world))) ''results'') =
     [ElemNode (Element ''ul'' ''result-list'' [])] \<and>
   childNodes (elements (search ''b'' (run (\<lambda>n. n)
      [Settle 0 FetchFulfilled, Settle 0 (JsonFulfilled (JArr []))]
      (search ''a'' (page {''results'', ''query''} :: string world)))) ''results'') = [] \<and>
   childNodes (elements
     (run (\<lambda>n. n)
        [Settle 0 FetchFulfilled, Settle 1 FetchFulfilled, Settle 7 (JsonFulfilled JNull)]
        (search ''b'' (run (\<lambda>n. n)
           [Settle 0 FetchFulfilled, Settle 0 (JsonFulfilled (JArr []))]
           (search ''a'' (page {''results'', ''query''} :: string world))))) ''results'') = []"
proof -
  let ?w = "run (\<lambda>n. n)
      [Settle 0 FetchFulfilled, Settle 0 (JsonFulfilled (JArr []))]
      (search ''a'' (page {''results'', ''query''} :: string world))"
  have h: "''results'' \<in> ids ?w"
    by (simp add: deliver_frame search_frame page_def)
  have t: "tasks ?w = [Fulfilled]"
    by (simp add: page_def search_def getElementById_def deliver_def
        set_className_def createElement_def)
  have c: "childNodes (elements ?w ''results'') = [ElemNode (Element ''ul'' ''result-list'' [])]"
    by (simp add: page_def search_def getElementById_def deliver_def
        set_className_def createElement_def appendChild_def clear_innerHTML_def)
  have d: "tasks (run (\<lambda>n. n)
        [Settle 0 FetchFulfilled, Settle 1 FetchFulfilled, Settle 7 (JsonFulfilled JNull)]
        (search ''b'' ?w)) ! 1 \<noteq> Fulfilled"
    using h t
    by (simp add: search_tasks deliver_Settle_tasks set_className_def createElement_def)
  from search_clears_container [OF h, of "''b''"
      "[(0, FetchFulfilled), (1, FetchFulfilled), (7, JsonFulfilled JNull)]" "\<lambda>n. n"] t
  have "childNodes (elements
     (run (\<lambda>n. n)
        [Settle 0 FetchFulfilled, Settle 1 FetchFulfilled, Settle 7 (JsonFulfilled JNull)]
        (search ''b'' ?w)) ''results'') = [] \<or>
     tasks (run (\<lambda>n. n)
        [Settle 0 FetchFulfilled, Settle 1 FetchFulfilled, Settle 7 (JsonFulfilled JNull)]
        (search ''b'' ?w)) ! 1 = Fulfilled"
    by (auto simp: Let_def)
  with d have e: "childNodes (elements
     (run (\<lambda>n. n)
        [Settle 0 FetchFulfilled, Settle 1 FetchFulfilled, Settle 7 (JsonFulfilled JNull)]
        (search ''b'' ?w)) ''results'') = []"
    by blast
  from h t c e search_children [OF h] show ?thesis
    by blast
qed

text \<open>
  The claim C3 as it is written fails: a second search is invoked while the first is
  pending, and then the response of the first one is parsed. The second activation
  still waits for its fetch, its list is not appended, and yet the container is no
  longer empty: it holds the list of the first search.
\<close>

theorem earlier_search_fills_container_counterexample:
  "tasks (run (\<lambda>n. n)
     [Settle 0 FetchFulfilled, Settle 0 (JsonFulfilled (JArr []))]
     (search ''b'' (search ''a'' (page {''results'', ''query''} :: string world)))) ! 1 =
     AwaitFetch ''results'' \<and>
   childNodes (elements (search ''b'' (search ''a''
     (page {''results'', ''query''} :: string world))) ''results'') = [] \<and>
   childNodes (elements (run (\<lambda>n. n)
     [Settle 0 FetchFulfilled, Settle 0 (JsonFulfilled (JArr []))]
     (search ''b'' (search ''a'' (page {''results'', ''query''} :: string world))))
     ''results'') = [ElemNode (Element ''ul'' ''result-list'' [])]"
  by (simp add: page_def search_def getElementById_def deliver_def
      set_className_def createElement_def appendChild_def clear_innerHTML_def)



text \<open>
  C5, as amended. When the page has no element with id \<open>query\<close>, loading the script
  fails with a TypeError and no listener is registered. When it has one, loading
  succeeds and registers the listener, whether or not an element with id \<open>results\<close>
  exists: that element is looked up only inside \<open>search\<close>, and when it is absent every
  invocation of \<open>search\<close> ends rejected with a TypeError, with no request issued and no
  change to the page.
\<close>

theorem load_fails_only_without_query:
  "(''query'' \<notin> ids w \<longrightarrow>
      snd (load w) = Inl TypeError \<and> listeners (fst (load w)) = listeners w) \<and>
   (''query'' \<in> ids w \<longrightarrow>
      snd (load w) = Inr () \<and> listeners (fst (load w)) = insert ''query'' (listeners w)) \<and>
   (''results'' \<notin> ids w \<longrightarrow>
      search prompt w = w\<lparr>tasks := tasks w @ [Rejected TypeError]\<rparr>)"
  by (simp add: load_def getElementById_def search_absent Let_def)

theorem load_fails_only_without_query_witness:
  "snd (load (page {''results''} :: string world)) = Inl TypeError \<and>
   listeners (fst (load (page {''results''} :: string world))) = {} \<and>
   snd (load (page {''query''} :: string world)) = Inr () \<and>
   listeners (fst (load (page {''query''} :: string world))) = {''query''} \<and>
   fetched (search ''q'' (fst (load (page {''query''} :: string world)))) = [] \<and>
   tasks (search ''q'' (fst (load (page {''query''} :: string world)))) = [Rejected TypeError]"
proof -
  have r: "''results'' \<notin> ids (fst (load (page {''query''} :: string world)))"
    by (simp add: page_def load_def getElementById_def)
  from load_fails_only_without_query [of "page {''results''} :: string world" "''q''"]
    load_fails_only_without_query [of "page {''query''} :: string world" "''q''"]
    load_fails_only_without_query [of "fst (load (page {''query''} :: string world))" "''q''"] r
  show ?thesis
    by (simp add: page_def load_def getElementById_def)
qed

text \<open>
  The claim C5 as it is written fails: on a page that has the input but no element
  with id \<open>results\<close> the script loads without error.
\<close>

theorem load_without_results_counterexample:
  "''results'' \<notin> ids (page {''query''} :: string world) \<and>
   snd (load (page {''query''} :: string world)) = Inr ()"
  by (simp add: page_def load_def getElementById_def)

text \<open>
  C6. The listener, once the script has bound \<open>query\<close> to the input: when the key of
  the event is \<open>Enter\<close>, \<open>search\<close> is invoked with the value of the input as it is, and
  the event is left as it was; for any other key the listener returns with the event
  and the state unchanged, so no request is issued, nothing in the page changes and
  the default action is not prevented.
\<close>

theorem keypress_listener:
  assumes "query_var w = Some q"
  shows "(key e = ''Enter'' \<longrightarrow>
            on_keypress e w = Inr (e, search (input_value w q) w) \<and>
            (target \<in> listeners w \<longrightarrow>
               deliver num_str (KeyPress target e) w = search (input_value w q) w)) \<and>
         (key e \<noteq> ''Enter'' \<longrightarrow>
            on_keypress e w = Inr (e, w) \<and> deliver num_str (KeyPress target e) w = w)"
  using assms by (simp add: on_keypress_def deliver_def)

theorem keypress_listener_witness:
  "query_var ((fst (load (page {''results'', ''query''} :: string world)))
      \<lparr>input_value := (\<lambda>i. '' foo  bar '')\<rparr>) = Some ''query'' \<and>
   fetched (deliver (\<lambda>n. n) (KeyPress ''query'' \<lparr>key = ''Enter'', defaultPrevented = False\<rparr>)
     ((fst (load (page {''results'', ''query''} :: string world)))
        \<lparr>input_value := (\<lambda>i. '' foo  bar '')\<rparr>)) =
     [\<lparr>url = ''/api/search'', http_method = ''POST'',
       headers = [(''Content-Type'', ''text/plain'')], body = '' foo  bar ''\<rparr>] \<and>
   deliver (\<lambda>n. n) (KeyPress ''query'' \<lparr>key = ''a'', defaultPrevented = False\<rparr>)
     ((fst (load (page {''results'', ''query''} :: string world)))
        \<lparr>input_value := (\<lambda>i. '' foo  bar '')\<rparr>) =
     (fst (load (page {''results'', ''query''} :: string world)))
        \<lparr>input_value := (\<lambda>i. '' foo  bar '')\<rparr>"
proof -
  let ?w = "(fst (load (page {''results'', ''query''} :: string world)))
      \<lparr>input_value := (\<lambda>i. '' foo  bar '')\<rparr>"
  have h: "query_var ?w = Some ''query''"
    by (simp add: page_def load_def getElementById_def)
  have l: "''query'' \<in> listeners ?w" "''results'' \<in> ids ?w" "fetched ?w = []"
    "input_value ?w ''query'' = '' foo  bar ''"
    by (simp_all add: page_def load_def getElementById_def)
  from keypress_listener [OF h, of "\<lparr>key = ''Enter'', defaultPrevented = False\<rparr>"
      "''query''" "\<lambda>n. n"]
    keypress_listener [OF h, of "\<lparr>key = ''a'', defaultPrevented = False\<rparr>"
      "''query''" "\<lambda>n. n"] h l
  show ?thesis
    by (simp add: search_present)
qed

text \<open>
  C7. For a response whose body parses to the empty array, \<open>search\<close> appends to the
  results container an unordered list of class \<open>result-list\<close> without children.
\<close>

theorem empty_response_renders_empty_list:
  assumes "''results'' \<in> ids w"
  shows "childNodes (elements
           (run num_str
              [Settle (length (tasks w)) FetchFulfilled,
               Settle (length (tasks w)) (JsonFulfilled (JArr []))]
              (search prompt w)) ''results'') =
         [ElemNode (Element ''ul'' ''result-list'' [])]"
  using assms
  by (simp add: search_present deliver_Settle appendChild_def clear_innerHTML_def
      set_className_def createElement_def)

theorem empty_response_renders_empty_list_witness:
  "''results'' \<in> ids (page {''results'', ''query''} :: string world) \<and>
   childNodes (elements
     (run (\<lambda>n. n) [Settle 0 FetchFulfilled, Settle 0 (JsonFulfilled (JArr []))]
        (search ''q'' (page {''results'', ''query''} :: string world))) ''results'') =
     [ElemNode (Element ''ul'' ''result-list'' [])]"
proof -
  have h: "''results'' \<in> ids (page {''results'', ''query''} :: string world)"
    by (simp add: page_def)
  have t: "tasks (page {''results'', ''query''} :: string world) = []"
    by (simp add: page_def)
  from empty_response_renders_empty_list [OF h, of "\<lambda>n. n" "''q''"] h t show ?thesis
    by simp
qed

text \<open>
  C8, as amended. When a second search is started before the body of the first
  response has been parsed, both activations run on, neither is cancelled or made to
  wait: in whatever order their fetches and bodies are fulfilled, each appends its own
  list when its body has been parsed, if the body renders (a body on which the loop
  throws adds nothing). The container is emptied only when \<open>search\<close> is invoked, so
  once both bodies have been parsed it holds the lists of both searches, in the order
  in which the bodies were parsed: the list of the body parsed last comes last and
  does not replace the other.

  In the theorem \<open>pre\<close> is what the first activation has received when the second
  search is started (nothing, or its response), \<open>rest\<close> is what it receives later, and
  \<open>evs\<close> is any interleaving of \<open>rest\<close> with the response and the body of the second.
\<close>

theorem concurrent_searches_append_both:
  assumes "''results'' \<in> ids w"
    and "pre @ rest = [Settle (length (tasks w)) FetchFulfilled,
                       Settle (length (tasks w)) (JsonFulfilled body1)]"
    and "rest \<noteq> []"
    and "evs \<in> shuffles rest
           [Settle (Suc (length (tasks w))) FetchFulfilled,
            Settle (Suc (length (tasks w))) (JsonFulfilled body2)]"
  shows "childNodes (elements
           (run num_str evs (search prompt2 (run num_str pre (search prompt1 w))))
           ''results'') =
         (if last evs = Settle (Suc (length (tasks w))) (JsonFulfilled body2)
          then spec_rendering num_str body1 @ spec_rendering num_str body2
          else spec_rendering num_str body2 @ spec_rendering num_str body1)"
proof -
  note step = search_tasks search_children search_frame deliver_frame
    fetch_tasks fetch_elements json_tasks json_children nth_append nth_list_update
  from overlap_cases [OF assms(2,3)] show ?thesis
  proof
    assume p: "pre = [] \<and> rest = [Settle (length (tasks w)) FetchFulfilled,
                       Settle (length (tasks w)) (JsonFulfilled body1)]"
    with assms(4) consider
        "evs = [Settle (length (tasks w)) FetchFulfilled,
                Settle (length (tasks w)) (JsonFulfilled body1),
                Settle (Suc (length (tasks w))) FetchFulfilled,
                Settle (Suc (length (tasks w))) (JsonFulfilled body2)]"
      | "evs = [Settle (length (tasks w)) FetchFulfilled,
                Settle (Suc (length (tasks w))) FetchFulfilled,
                Settle (length (tasks w)) (JsonFulfilled body1),
                Settle (Suc (length (tasks w))) (JsonFulfilled body2)]"
      | "evs = [Settle (length (tasks w)) FetchFulfilled,
                Settle (Suc (length (tasks w))) FetchFulfilled,
                Settle (Suc (length (tasks w))) (JsonFulfilled body2),
                Settle (length (tasks w)) (JsonFulfilled body1)]"
      | "evs = [Settle (Suc (length (tasks w))) FetchFulfilled,
                Settle (length (tasks w)) FetchFulfilled,
                Settle (length (tasks w)) (JsonFulfilled body1),
                Settle (Suc (length (tasks w))) (JsonFulfilled body2)]"
      | "evs = [Settle (Suc (length (tasks w))) FetchFulfilled,
                Settle (length (tasks w)) FetchFulfilled,
                Settle (Suc (length (tasks w))) (JsonFulfilled body2),
                Settle (length (tasks w)) (JsonFulfilled body1)]"
      | "evs = [Settle (Suc (length (tasks w))) FetchFulfilled,
                Settle (Suc (length (tasks w))) (JsonFulfilled body2),
                Settle (length (tasks w)) FetchFulfilled,
                Settle (length (tasks w)) (JsonFulfilled body1)]"
      by auto
    then show ?thesis
      using assms(1) p by cases (simp_all add: step)
  next
    assume p: "pre = [Settle (length (tasks w)) FetchFulfilled] \<and>
               rest = [Settle (length (tasks w)) (JsonFulfilled body1)]"
    with assms(4) consider
        "evs = [Settle (length (tasks w)) (JsonFulfilled body1),
                Settle (Suc (length (tasks w))) FetchFulfilled,
                Settle (Suc (length (tasks w))) (JsonFulfilled body2)]"
      | "evs = [Settle (Suc (length (tasks w))) FetchFulfilled,
                Settle (length (tasks w)) (JsonFulfilled body1),
                Settle (Suc (length (tasks w))) (JsonFulfilled body2)]"
      | "evs = [Settle (Suc (length (tasks w))) FetchFulfilled,
                Settle (Suc (length (tasks w))) (JsonFulfilled body2),
                Settle (length (tasks w)) (JsonFulfilled body1)]"
      by auto
    then show ?thesis
      using assms(1) p by cases (simp_all add: step)
  qed
qed

text \<open>
  Two instances. The second search is started after the first has its response; the
  body of the second (no entry) is parsed before the body of the first (one entry):
  the empty list comes first. And: both searches are started at once and the body of
  the first has an entry that is not iterable: only the list of the second is there.
\<close>

theorem concurrent_searches_append_both_witness:
  "''results'' \<in> ids (page {''results'', ''query''} :: string world) \<and>
   [Settle 1 FetchFulfilled, Settle 1 (JsonFulfilled (JArr [])),
    Settle 0 (JsonFulfilled (JArr [JArr [JStr ''a.txt'', JNum ''3'']]))] \<in>
     shuffles [Settle 0 (JsonFulfilled (JArr [JArr [JStr ''a.txt'', JNum ''3'']]))]
       [Settle 1 FetchFulfilled, Settle 1 (JsonFulfilled (JArr []))] \<and>
   childNodes (elements
     (run (\<lambda>n. n)
        [Settle 1 FetchFulfilled, Settle 1 (JsonFulfilled (JArr [])),
         Settle 0 (JsonFulfilled (JArr [JArr [JStr ''a.txt'', JNum ''3'']]))]
        (search ''b'' (run (\<lambda>n. n) [Settle 0 FetchFulfilled]
           (search ''a'' (page {''results'', ''query''}))))) ''results'') =
     [ElemNode (Element ''ul'' ''result-list'' []),
      ElemNode (Element ''ul'' ''result-list''
        [ElemNode (Element ''li'' ''''
           [ElemNode (Element ''span'' '''' [TextNode ''a.txt'']), TextNode '' '',
            ElemNode (Element ''span'' ''rank'' [TextNode ''3''])])])] \<and>
   childNodes (elements
     (run (\<lambda>n. n)
        [Settle 1 FetchFulfilled, Settle 0 FetchFulfilled,
         Settle 0 (JsonFulfilled (JArr [JNull])),
         Settle 1 (JsonFulfilled (JArr [JArr [JStr ''b.txt'', JStr ''1'']]))]
        (search ''b'' (run (\<lambda>n. n) []
           (search ''a'' (page {''results'', ''query''}))))) ''results'') =
     [ElemNode (Element ''ul'' ''result-list''
        [ElemNode (Element ''li'' ''''
           [ElemNode (Element ''span'' '''' [TextNode ''b.txt'']), TextNode '' '',
            ElemNode (Element ''span'' ''rank'' [TextNode ''1''])])])]"
proof -
  have h: "''results'' \<in> ids (page {''results'', ''query''} :: string world)"
    by (simp add: page_def)
  have t: "length (tasks (page {''results'', ''query''} :: string world)) = 0"
    by (simp add: page_def)
  have r1: "spec_rendering (\<lambda>n. n) (JArr [JArr [JStr ''a.txt'', JNum ''3'']]) =
      [ElemNode (Element ''ul'' ''result-list''
        [ElemNode (Element ''li'' ''''
           [ElemNode (Element ''span'' '''' [TextNode ''a.txt'']), TextNode '' '',
            ElemNode (Element ''span'' ''rank'' [TextNode ''3''])])])]"
    "spec_rendering (\<lambda>n. n) (JArr [] :: string jval) =
      [ElemNode (Element ''ul'' ''result-list'' [])]"
    "spec_rendering (\<lambda>n. n) (JArr [JNull] :: string jval) = []"
    "spec_rendering (\<lambda>n. n) (JArr [JArr [JStr ''b.txt'', JStr ''1'']] :: string jval) =
      [ElemNode (Element ''ul'' ''result-list''
        [ElemNode (Element ''li'' ''''
           [ElemNode (Element ''span'' '''' [TextNode ''b.txt'']), TextNode '' '',
            ElemNode (Element ''span'' ''rank'' [TextNode ''1''])])])]"
    by (simp_all add: spec_rendering_def body_texts_def path_rank_text_pair
        path_rank_text_not_iterable spec_list_def spec_item_def)
  have s1: "[Settle 1 FetchFulfilled, Settle 1 (JsonFulfilled (JArr [])),
      Settle 0 (JsonFulfilled (JArr [JArr [JStr ''a.txt'', JNum ''3'']]))] \<in>
     shuffles [Settle 0 (JsonFulfilled (JArr [JArr [JStr ''a.txt'', JNum ''3'']]))]
       [Settle 1 FetchFulfilled, Settle 1 (JsonFulfilled (JArr []))]"
    by simp
  have s2: "[Settle 1 FetchFulfilled, Settle 0 FetchFulfilled,
         Settle 0 (JsonFulfilled (JArr [JNull])),
         Settle 1 (JsonFulfilled (JArr [JArr [JStr ''b.txt'', JStr ''1'']]))] \<in>
     shuffles [Settle 0 FetchFulfilled, Settle 0 (JsonFulfilled (JArr [JNull :: string jval]))]
       [Settle 1 FetchFulfilled,
        Settle 1 (JsonFulfilled (JArr [JArr [JStr ''b.txt'', JStr ''1'']]))]"
    by simp
  have a: "childNodes (elements
     (run (\<lambda>n. n)
        [Settle 1 FetchFulfilled, Settle 1 (JsonFulfilled (JArr [])),
         Settle 0 (JsonFulfilled (JArr [JArr [JStr ''a.txt'', JNum ''3'']]))]
        (search ''b'' (run (\<lambda>n. n) [Settle 0 FetchFulfilled]
           (search ''a'' (page {''results'', ''query''}))))) ''results'') =
     spec_rendering (\<lambda>n. n) (JArr []) @
     spec_rendering (\<lambda>n. n) (JArr [JArr [JStr ''a.txt'', JNum ''3'']])"
    using concurrent_searches_append_both [where w = "page {''results'', ''query''}"
        and pre = "[Settle 0 FetchFulfilled]"
        and rest = "[Settle 0 (JsonFulfilled (JArr [JArr [JStr ''a.txt'', JNum ''3'']]))]"
        and ?body1.0 = "JArr [JArr [JStr ''a.txt'', JNum ''3'']]"
        and ?body2.0 = "JArr []"
        and evs = "[Settle 1 FetchFulfilled, Settle 1 (JsonFulfilled (JArr [])),
           Settle 0 (JsonFulfilled (JArr [JArr [JStr ''a.txt'', JNum ''3'']]))]"
        and num_str = "\<lambda>n. n" and ?prompt1.0 = "''a''" and ?prompt2.0 = "''b''"]
      h s1
    by (simp add: t)
  have b: "childNodes (elements
     (run (\<lambda>n. n)
        [Settle 1 FetchFulfilled, Settle 0 FetchFulfilled,
         Settle 0 (JsonFulfilled (JArr [JNull])),
         Settle 1 (JsonFulfilled (JArr [JArr [JStr ''b.txt'', JStr ''1'']]))]
        (search ''b'' (run (\<lambda>n. n) []
           (search ''a'' (page {''results'', ''query''} :: string world))))) ''results'') =
     spec_rendering (\<lambda>n. n) (JArr [JNull]) @
     spec_rendering (\<lambda>n. n) (JArr [JArr [JStr ''b.txt'', JStr ''1'']])"
    using concurrent_searches_append_both [where w = "page {''results'', ''query''}"
        and pre = "[]"
        and rest = "[Settle 0 FetchFulfilled, Settle 0 (JsonFulfilled (JArr [JNull]))]"
        and ?body1.0 = "JArr [JNull]"
        and ?body2.0 = "JArr [JArr [JStr ''b.txt'', JStr ''1'']]"
        and evs = "[Settle 1 FetchFulfilled, Settle 0 FetchFulfilled,
           Settle 0 (JsonFulfilled (JArr [JNull])),
           Settle 1 (JsonFulfilled (JArr [JArr [JStr ''b.txt'', JStr ''1'']]))]"
        and num_str = "\<lambda>n. n" and ?prompt1.0 = "''a''" and ?prompt2.0 = "''b''"]
      h s2
    by (simp add: t)
  from h s1 a b show ?thesis
    by (simp only: r1 append_Cons append_Nil simp_thms)
qed

text \<open>
  The claim C8 as it is written fails: two presses of Enter, then the response of the
  first search (one entry) and then the response of the second (no entry). The
  response that arrived last is the empty array, yet the container does not show the
  empty list alone: the list of the first response is still there, before it.
\<close>

theorem last_response_wins_counterexample:
  "childNodes (elements
     (run (\<lambda>n. n)
        [KeyPress ''query'' \<lparr>key = ''Enter'', defaultPrevented = False\<rparr>,
         KeyPress ''query'' \<lparr>key = ''Enter'', defaultPrevented = False\<rparr>,
         Settle 0 FetchFulfilled, Settle 1 FetchFulfilled,
         Settle 0 (JsonFulfilled (JArr [JArr [JStr ''a.txt'', JNum ''3'']])),
         Settle 1 (JsonFulfilled (JArr []))]
        (fst (load (page {''results'', ''query''} :: string world)))) ''results'') =
     [ElemNode (Element ''ul'' ''result-list''
        [ElemNode (Element ''li'' ''''
           [ElemNode (Element ''span'' '''' [TextNode ''a.txt'']), TextNode '' '',
            ElemNode (Element ''span'' ''rank'' [TextNode ''3''])])]),
      ElemNode (Element ''ul'' ''result-list'' [])] \<and>
   childNodes (elements
     (run (\<lambda>n. n)
        [KeyPress ''query'' \<lparr>key = ''Enter'', defaultPrevented = False\<rparr>,
         KeyPress ''query'' \<lparr>key = ''Enter'', defaultPrevented = False\<rparr>,
         Settle 0 FetchFulfilled, Settle 1 FetchFulfilled,
         Settle 0 (JsonFulfilled (JArr [JArr [JStr ''a.txt'', JNum ''3'']])),
         Settle 1 (JsonFulfilled (JArr []))]
        (fst (load (page {''results'', ''query''} :: string world)))) ''results'') \<noteq>
     [ElemNode (Element ''ul'' ''result-list'' [])]"
  by (simp add: page_def load_def getElementById_def deliver_def on_keypress_def search_def
      loop_body_def destructure_def component_def createTextNode_def createElement_def
      set_className_def appendChild_def clear_innerHTML_def Let_def)



text \<open>
  C10, as amended. The targets \<open>path\<close> and \<open>rank\<close> of the loop are not declared, so the
  loop writes properties of the global object. After a search whose response is a
  non-empty array in which every entry can be rendered (each is iterable and its two
  components have a text), so that the operation completes, they hold the two
  components of the last entry. They stay: invoking \<open>search\<close> again does not touch
  them, no event other than a parsed response does, and a completed search with an
  empty response leaves them as they are.
\<close>

theorem loop_assigns_globals:
  assumes "''results'' \<in> ids w" and "entries \<noteq> []"
    and "map (path_rank_text num_str) entries = map Some texts"
    and "destructure (last entries) = Some (p, r)"
  shows "let w2 = run num_str
                    [Settle (length (tasks w)) FetchFulfilled,
                     Settle (length (tasks w)) (JsonFulfilled (JArr entries))]
                    (search prompt w)
         in tasks w2 ! length (tasks w) = Fulfilled \<and>
            globals w2 = (globals w)(''path'' \<mapsto> p, ''rank'' \<mapsto> r) \<and>
            globals (search prompt' w2) = globals w2 \<and>
            ((\<forall>i v. ev \<noteq> Settle i (JsonFulfilled v)) \<longrightarrow>
               globals (deliver num_str ev w2) = globals w2) \<and>
            globals (run num_str
                       [Settle (length (tasks w2)) FetchFulfilled,
                        Settle (length (tasks w2)) (JsonFulfilled (JArr []))]
                       (search prompt' w2)) = globals w2"
proof -
  let ?w2 = "run num_str
               [Settle (length (tasks w)) FetchFulfilled,
                Settle (length (tasks w)) (JsonFulfilled (JArr entries))]
               (search prompt w)"
  have t: "tasks ?w2 ! length (tasks w) = Fulfilled"
    using assms(1,3)
    by (simp add: search_present deliver_fetch_fulfilled deliver_json_texts)
  have "globals ?w2 =
          fst (for_of num_str entries (globals w) (Element ''ul'' ''result-list'' []))"
    using assms(1,3)
    by (simp add: search_present deliver_fetch_fulfilled deliver_json_texts)
  with for_of_globals [OF assms(3,2,4)]
  have a: "globals ?w2 = (globals w)(''path'' \<mapsto> p, ''rank'' \<mapsto> r)"
    by simp
  have r: "''results'' \<in> ids ?w2"
    using assms(1) by (simp add: deliver_frame search_frame)
  have b: "globals (run num_str
                       [Settle (length (tasks ?w2)) FetchFulfilled,
                        Settle (length (tasks ?w2)) (JsonFulfilled (JArr []))]
                       (search prompt' ?w2)) = globals ?w2"
    using r by (rule empty_response_globals)
  have c: "globals (search prompt' ?w2) = globals ?w2"
    by (simp only: search_frame)
  have d: "(\<forall>i v. ev \<noteq> Settle i (JsonFulfilled v)) \<longrightarrow>
             globals (deliver num_str ev ?w2) = globals ?w2"
    using deliver_globals by blast
  show ?thesis
    by (unfold Let_def, intro conjI) (rule t, rule a, rule c, rule d, rule b)
qed

theorem loop_assigns_globals_witness:
  "''results'' \<in> ids (page {''results'', ''query''} :: string world) \<and>
   globals (page {''results'', ''query''} :: string world) ''path'' = None \<and>
   globals (run (\<lambda>n. n)
     [Settle 0 FetchFulfilled,
      Settle 0 (JsonFulfilled
        (JArr [JArr [JStr ''a.txt'', JNum ''3''], JArr [JStr ''b.txt'', JNum ''1'']]))]
     (search ''q'' (page {''results'', ''query''}))) =
     [''path'' \<mapsto> JStr ''b.txt'', ''rank'' \<mapsto> JNum ''1'']"
proof -
  have h: "''results'' \<in> ids (page {''results'', ''query''} :: string world)"
    by (simp add: page_def)
  have t: "tasks (page {''results'', ''query''} :: string world) = []"
    "globals (page {''results'', ''query''} :: string world) = Map.empty"
    by (simp_all add: page_def)
  have n: "[JArr [JStr ''a.txt'', JNum ''3''], JArr [JStr ''b.txt'', JNum ''1'']] \<noteq>
             ([] :: string jval list)"
    by simp
  have m: "map (path_rank_text (\<lambda>n. n))
             [JArr [JStr ''a.txt'', JNum ''3''], JArr [JStr ''b.txt'', JNum ''1'']] =
           map Some [(''a.txt'', ''3''), (''b.txt'', ''1'')]"
    by (simp add: path_rank_text_pair)
  have d: "destructure
             (last [JArr [JStr ''a.txt'', JNum ''3''], JArr [JStr ''b.txt'', JNum ''1'']]) =
           Some (JStr ''b.txt'', JNum ''1'')"
    by (simp add: destructure_def component_def)
  from loop_assigns_globals [OF h n m d, of "''q''" "''q''" "KeyPress ''query'' \<lparr>key = ''a'', defaultPrevented = False\<rparr>"] h t
  show ?thesis
    by (simp add: Let_def)
qed

text \<open>
  The claim C10 as it is written fails: the response \<open>[7, ["a", 1]]\<close> parses to a
  non-empty array, but its first entry is not iterable, so the loop throws before any
  assignment and \<open>path\<close> and \<open>rank\<close> are not assigned at all, let alone bound to the
  components of the last entry.
\<close>

theorem first_entry_not_iterable_counterexample:
  "globals (run (\<lambda>n. n)
     [Settle 0 FetchFulfilled,
      Settle 0 (JsonFulfilled (JArr [JNum ''7'', JArr [JStr ''a'', JNum ''1'']]))]
     (search ''q'' (page {''results'', ''query''} :: string world))) ''path'' = None \<and>
   globals (run (\<lambda>n. n)
     [Settle 0 FetchFulfilled,
      Settle 0 (JsonFulfilled (JArr [JNum ''7'', JArr [JStr ''a'', JNum ''1'']]))]
     (search ''q'' (page {''results'', ''query''} :: string world))) ''rank'' = None \<and>
   tasks (run (\<lambda>n. n)
     [Settle 0 FetchFulfilled,
      Settle 0 (JsonFulfilled (JArr [JNum ''7'', JArr [JStr ''a'', JNum ''1'']]))]
     (search ''q'' (page {''results'', ''query''} :: string world))) = [Rejected TypeError]"
  by (simp add: page_def search_def getElementById_def deliver_def loop_body_def
      destructure_def set_className_def createElement_def clear_innerHTML_def)

end
